theory Spec2Isabelle
  imports Complex_Main
begin

section \<open>JavaScript values\<close>

text \<open>
  The normalisation engine of \<^verbatim>\<open>src/app/page.tsx\<close> walks values of type
  \<^verbatim>\<open>unknown\<close>: whatever the agent sent, after \<^verbatim>\<open>JSON.parse\<close>. They are modelled
  by one datatype. Strings are sequences of code units below 256; an object is an
  association list read with \<open>map_of\<close> (own properties only: none of the property names
  the engine reads is defined on a built-in prototype). Numbers carry their exact value;
  the engine only asks whether a value is a number and whether it is falsy.
\<close>

datatype jsval =
    JUndefined
  | JNull
  | JBool bool
  | JNumber rat
  | JString string
  | JArray "jsval list"
  | JObject "(string \<times> jsval) list"

datatype error = TypeError

text \<open>
  The two built-ins of the platform the engine relies on are parameters of the model:
  \<^verbatim>\<open>JSON.parse\<close> (\<open>None\<close> when it throws SyntaxError) and the conversion of a
  number to a string used by \<^verbatim>\<open>Array.prototype.join\<close>.
\<close>

record js_env =
  JSON_parse :: "string \<Rightarrow> jsval option"
  Number_toString :: "rat \<Rightarrow> string"

definition truthy :: "jsval \<Rightarrow> bool" where
  "truthy v =
     (case v of
        JUndefined \<Rightarrow> False
      | JNull \<Rightarrow> False
      | JBool b \<Rightarrow> b
      | JNumber n \<Rightarrow> n \<noteq> 0
      | JString s \<Rightarrow> s \<noteq> []
      | JArray xs \<Rightarrow> True
      | JObject kvs \<Rightarrow> True)"

definition isString :: "jsval \<Rightarrow> bool" where
  \<comment> \<open>\<^verbatim>\<open>typeof v === 'string'\<close>\<close>
  "isString v = (case v of JString s \<Rightarrow> True | _ \<Rightarrow> False)"



definition isNonNullObject :: "jsval \<Rightarrow> bool" where
  \<comment> \<open>\<^verbatim>\<open>typeof v === 'object' && v !== null\<close>: arrays included\<close>
  "isNonNullObject v = (case v of JArray xs \<Rightarrow> True | JObject kvs \<Rightarrow> True | _ \<Rightarrow> False)"

definition isNullish :: "jsval \<Rightarrow> bool" where
  "isNullish v = (v = JUndefined \<or> v = JNull)"

definition get :: "jsval \<Rightarrow> string \<Rightarrow> jsval" where
  \<comment> \<open>\<^verbatim>\<open>v?.k\<close>, and \<^verbatim>\<open>v.k\<close> where the source has checked that v is not nullish\<close>
  "get v k =
     (case v of
        JObject kvs \<Rightarrow> (case map_of kvs k of Some x \<Rightarrow> x | None \<Rightarrow> JUndefined)
      | _ \<Rightarrow> JUndefined)"

definition hasKey :: "string \<Rightarrow> jsval \<Rightarrow> bool" where
  \<comment> \<open>\<^verbatim>\<open>k in v\<close> for a non-null object v; an array has none of the keys asked for\<close>
  "hasKey k v = (case v of JObject kvs \<Rightarrow> map_of kvs k \<noteq> None | _ \<Rightarrow> False)"

definition orElse :: "jsval \<Rightarrow> jsval \<Rightarrow> jsval" where
  \<comment> \<open>\<^verbatim>\<open>a ?? b\<close>\<close>
  "orElse a b = (if isNullish a then b else a)"

section \<open>Strings\<close>

definition isWhiteSpace :: "char \<Rightarrow> bool" where
  \<comment> \<open>what \<^verbatim>\<open>trim\<close> removes and \<^verbatim>\<open>\s\<close> matches, among code units below 256\<close>
  "isWhiteSpace c = (c \<in> set [CHR 0x09, CHR 0x0A, CHR 0x0B, CHR 0x0C, CHR 0x0D, CHR 0x20, CHR 0xA0])"

definition trim :: "string \<Rightarrow> string" where
  "trim s = rev (dropWhile isWhiteSpace (rev (dropWhile isWhiteSpace s)))"

definition toLowerChar :: "char \<Rightarrow> char" where
  "toLowerChar c =
     (let n = (of_char c :: nat)
      in if (65 \<le> n \<and> n \<le> 90) \<or> (192 \<le> n \<and> n \<le> 222 \<and> n \<noteq> 215)
         then char_of (n + 32) else c)"

definition toLowerCase :: "string \<Rightarrow> string" where
  "toLowerCase s = map toLowerChar s"

definition isQuote :: "char \<Rightarrow> bool" where
  \<comment> \<open>the class \<^verbatim>\<open>['"]\<close>\<close>
  "isQuote c = (c = CHR 0x22 \<or> c = CHR 0x27)"

fun split_on :: "(char \<Rightarrow> bool) \<Rightarrow> string \<Rightarrow> string list" where
  "split_on p [] = [[]]"
| "split_on p (c # cs) =
     (if p c then [] # split_on p cs
      else (case split_on p cs of
              [] \<Rightarrow> [[c]]
            | x # xs \<Rightarrow> (c # x) # xs))"

fun join :: "string \<Rightarrow> string list \<Rightarrow> string" where
  "join sep [] = []"
| "join sep [x] = x"
| "join sep (x # y # ys) = x @ sep @ join sep (y # ys)"

section \<open>The brand-name input parser\<close>

definition headerTokens :: "string list" where
  "headerTokens = [''brand'', ''name'', ''brand_name'', ''brand name'', ''company'', ''company name'']"

definition stripQuotes :: "string \<Rightarrow> string" where
  \<comment> \<open>\<^verbatim>\<open>l.replace(/^["']|["']$/g, '')\<close>: one quote at the start, then one at the end\<close>
  "stripQuotes l =
     (let l1 = (case l of [] \<Rightarrow> [] | c # cs \<Rightarrow> if isQuote c then cs else l)
      in if l1 \<noteq> [] \<and> isQuote (last l1) then butlast l1 else l1)"

definition isSeparator :: "char \<Rightarrow> bool" where
  \<comment> \<open>the class \<^verbatim>\<open>[\n,]\<close>\<close>
  "isSeparator c = (c = CHR 0x0A \<or> c = CHR '','')"

definition parseBrandText :: "string \<Rightarrow> string list" where
  "parseBrandText text =
     (let lines = filter (\<lambda>l. length l > 0) (map trim (split_on isSeparator text));
          filtered = filter (\<lambda>line.
                       let lower = filter (\<lambda>c. \<not> isQuote c) (toLowerCase line)
                       in lower \<noteq> ''brand'' \<and> lower \<noteq> ''name'' \<and> lower \<noteq> ''brand_name'' \<and>
                          lower \<noteq> ''brand name'' \<and> lower \<noteq> ''company'' \<and>
                          lower \<noteq> ''company name'') lines
      in filter (\<lambda>l. length l > 0) (map (\<lambda>l. trim (stripQuotes l)) filtered))"

section \<open>The Value Resolver\<close>

fun find_fence :: "string \<Rightarrow> nat option" where
  \<comment> \<open>index of the first run of three backticks\<close>
  "find_fence [] = None"
| "find_fence (c # cs) =
     (if take 3 (c # cs) = [CHR 0x60, CHR 0x60, CHR 0x60] then Some 0
      else map_option Suc (find_fence cs))"

definition codeBlockMatch :: "string \<Rightarrow> string option" where
  \<comment> \<open>capture group 1 of the first match of the fence pattern in \<^verbatim>\<open>tryParseString\<close>:
      opening fence, optional \<^verbatim>\<open>json\<close>, greedy white space, the shortest text up to an
      optional newline and the next fence. \<open>None\<close> when the pattern does not match.\<close>
  "codeBlockMatch t =
     (case find_fence t of
        None \<Rightarrow> None
      | Some i \<Rightarrow>
          (let r1 = drop (i + 3) t;
               r2 = (if take 4 r1 = ''json'' then drop 4 r1 else r1);
               r3 = dropWhile isWhiteSpace r2
           in case find_fence r3 of
                None \<Rightarrow> None
              | Some j \<Rightarrow>
                  (let body = take j r3
                   in Some (if body \<noteq> [] \<and> last body = CHR 0x0A then butlast body else body))))"

fun search_open :: "string \<Rightarrow> nat option" where
  \<comment> \<open>\<^verbatim>\<open>trimmed.search(/[{\[]/)\<close>\<close>
  "search_open [] = None"
| "search_open (c # cs) =
     (if c = CHR 0x7B \<or> c = CHR 0x5B then Some 0 else map_option Suc (search_open cs))"

definition tryParseString :: "js_env \<Rightarrow> string \<Rightarrow> jsval" where
  \<comment> \<open>the result \<open>JNull\<close> is both "nothing parsed" and a parsed \<^verbatim>\<open>null\<close>, as in the source\<close>
  "tryParseString E s =
     (if s = [] then JNull
      else
        (let trimmed = trim s;
             fromStart =
               (case search_open trimmed of
                  None \<Rightarrow> JNull
                | Some jsonStart \<Rightarrow>
                    (case JSON_parse E (drop jsonStart trimmed) of
                       Some v \<Rightarrow> v
                     | None \<Rightarrow> JNull));
             fromBlock =
               (case codeBlockMatch trimmed of
                  None \<Rightarrow> fromStart
                | Some captured \<Rightarrow>
                    (if captured = [] then fromStart
                     else (case JSON_parse E (trim captured) of
                             Some v \<Rightarrow> v
                           | None \<Rightarrow> fromStart)))
         in case JSON_parse E trimmed of
              Some v \<Rightarrow> v
            | None \<Rightarrow> fromBlock))"

function resolveValue :: "js_env \<Rightarrow> jsval \<Rightarrow> nat \<Rightarrow> jsval" where
  "resolveValue E val depth =
     (if depth > 5 then val
      else (case val of
              JString s \<Rightarrow>
                (let parsed = tryParseString E s
                 in if parsed \<noteq> JNull then resolveValue E parsed (depth + 1) else val)
            | _ \<Rightarrow> val))"
  by pat_completeness auto
termination
  by (relation "measure (\<lambda>(E, val, depth). 6 - depth)") auto

declare resolveValue.simps [simp del]

section \<open>The Schema Mapper\<close>

fun mapM :: "('a \<Rightarrow> error + 'b) \<Rightarrow> 'a list \<Rightarrow> error + 'b list" where
  \<comment> \<open>\<^verbatim>\<open>Array.prototype.map\<close> with a callback that may throw\<close>
  "mapM f [] = Inr []"
| "mapM f (x # xs) =
     (case f x of
        Inl e \<Rightarrow> Inl e
      | Inr y \<Rightarrow> (case mapM f xs of Inl e \<Rightarrow> Inl e | Inr ys \<Rightarrow> Inr (y # ys)))"

fun elemString :: "js_env \<Rightarrow> jsval \<Rightarrow> error + string"
  and elemStrings :: "js_env \<Rightarrow> jsval list \<Rightarrow> error + string list" where
  \<comment> \<open>the text \<^verbatim>\<open>Array.prototype.join\<close> writes for one element. An object whose own
      \<^verbatim>\<open>toString\<close> property is data (all a parsed object can hold) has no primitive value.\<close>
  "elemString E JUndefined = Inr []"
| "elemString E JNull = Inr []"
| "elemString E (JBool b) = Inr (if b then ''true'' else ''false'')"
| "elemString E (JNumber n) = Inr (Number_toString E n)"
| "elemString E (JString s) = Inr s"
| "elemString E (JArray xs) =
     (case elemStrings E xs of Inl e \<Rightarrow> Inl e | Inr ss \<Rightarrow> Inr (join '','' ss))"
| "elemString E (JObject kvs) =
     (if map_of kvs ''toString'' \<noteq> None then Inl TypeError else Inr ''[object Object]'')"
| "elemStrings E [] = Inr []"
| "elemStrings E (x # xs) =
     (case elemString E x of
        Inl e \<Rightarrow> Inl e
      | Inr y \<Rightarrow> (case elemStrings E xs of Inl e \<Rightarrow> Inl e | Inr ys \<Rightarrow> Inr (y # ys)))"

definition arrayJoin :: "js_env \<Rightarrow> string \<Rightarrow> jsval list \<Rightarrow> error + string" where
  \<comment> \<open>\<^verbatim>\<open>xs.join(sep)\<close>\<close>
  "arrayJoin E sep xs =
     (case elemStrings E xs of Inl e \<Rightarrow> Inl e | Inr ss \<Rightarrow> Inr (join sep ss))"

definition lowerOpt :: "jsval \<Rightarrow> error + jsval" where
  \<comment> \<open>\<^verbatim>\<open>v?.toLowerCase()\<close>: undefined for a nullish v, a call of a missing method otherwise
      unless v is a string\<close>
  "lowerOpt v =
     (if isNullish v then Inr JUndefined
      else (case v of JString s \<Rightarrow> Inr (JString (toLowerCase s)) | _ \<Rightarrow> Inl TypeError))"

definition mapChatGPTResult :: "js_env \<Rightarrow> jsval \<Rightarrow> error + jsval" where
  "mapChatGPTResult E r =
     (let wd = get r ''website_details'';
          sm = get wd ''social_media''
      in case (case get wd ''product_categories'' of
                 JArray cats \<Rightarrow> map_sum id JString (arrayJoin E '', '' cats)
               | other \<Rightarrow> Inr (orElse other (JString [])))
         of Inl e \<Rightarrow> Inl e
          | Inr product_category \<Rightarrow>
         (case lowerOpt (get r ''confidence'') of
            Inl e \<Rightarrow> Inl e
          | Inr lowered \<Rightarrow>
              Inr (JObject
                [(''brand_name'', orElse (get r ''brand_name'') (JString [])),
                 (''website_url'',
                    orElse (orElse (get r ''selected_official_website'')
                                   (get r ''official_website_turkey'')) (JString [])),
                 (''website_scope'', orElse (get r ''website_scope'') (JString [])),
                 (''confidence'', orElse (get r ''confidence'') (JString [])),
                 (''verification_notes'', orElse (get r ''verification_notes'') (JString [])),
                 (''logo_url'', orElse (get wd ''logo_url'') (JString [])),
                 (''founded_year'', orElse (get wd ''founded_year'') (JString [])),
                 (''about_summary'', JString []),
                 (''about_page_link'', orElse (get wd ''about_page_link'') (JString [])),
                 (''product_category'', product_category),
                 (''social_media'', JObject
                    [(''twitter'', orElse (get sm ''twitter'') (JString [])),
                     (''linkedin'', orElse (get sm ''linkedin'') (JString [])),
                     (''instagram'', orElse (get sm ''instagram'') (JString [])),
                     (''facebook'', orElse (get sm ''facebook'') (JString [])),
                     (''youtube'', orElse (get sm ''youtube'') (JString [])),
                     (''tiktok'', orElse (get sm ''tiktok'') (JString [])),
                     (''pinterest'', orElse (get sm ''pinterest'') (JString []))]),
                 (''contact_info'', JObject
                    [(''email'', orElse (get wd ''contact_email'') (JString [])),
                     (''phone'', orElse (get wd ''contact_phone'') (JString [])),
                     (''hq_address'', JString [])]),
                 (''status'',
                    JString (if lowered = JString ''verified'' then ''Complete''
                             else ''Partial''))])))"

section \<open>The Brand Extractor\<close>

text \<open>
  \<^verbatim>\<open>findBrandsInObject\<close> returns \<^verbatim>\<open>Brand[] | null\<close>; the list is either the array
  found in the response, as it is, or the array of mapped records. A \<^verbatim>\<open>TypeError\<close>
  raised by the Schema Mapper leaves the function as \<open>Inl\<close>.
\<close>

definition orTry :: "error + 'a option \<Rightarrow> error + 'a option \<Rightarrow> error + 'a option" where
  \<comment> \<open>\<^verbatim>\<open>const found = ...; if (found) return found\<close>, then the rest of the body\<close>
  "orTry found rest =
     (case found of
        Inl e \<Rightarrow> Inl e
      | Inr None \<Rightarrow> rest
      | Inr (Some bs) \<Rightarrow> Inr (Some bs))"

definition checkKey :: "js_env \<Rightarrow> jsval \<Rightarrow> string \<Rightarrow> error + jsval list option" where
  \<comment> \<open>one round of the loop over the keys \<^verbatim>\<open>brands\<close> and \<^verbatim>\<open>results\<close>\<close>
  "checkKey E record key =
     (case resolveValue E (get record key) 0 of
        JArray val \<Rightarrow>
          (case val of
             [] \<Rightarrow> Inr None
           | first # rest \<Rightarrow>
               (if isNonNullObject first then
                  (if hasKey ''brand_name'' first then Inr (Some val)
                   else if hasKey ''website_details'' first \<or>
                           hasKey ''selected_official_website'' first
                   then (case mapM (mapChatGPTResult E) val of
                           Inl e \<Rightarrow> Inl e
                         | Inr bs \<Rightarrow> Inr (Some bs))
                   else Inr None)
                else Inr None))
      | _ \<Rightarrow> Inr None)"

fun checkKeys :: "js_env \<Rightarrow> jsval \<Rightarrow> string list \<Rightarrow> error + jsval list option" where
  "checkKeys E record [] = Inr None"
| "checkKeys E record (key # keys) = orTry (checkKey E record key) (checkKeys E record keys)"

function findBrandsInObject :: "js_env \<Rightarrow> jsval \<Rightarrow> nat \<Rightarrow> error + jsval list option" where
  "findBrandsInObject E obj depth =
     (if depth > 4 \<or> \<not> truthy obj \<or> \<not> isNonNullObject obj then Inr None
      else
        (case obj of
           JArray xs \<Rightarrow>
             (case xs of
                [] \<Rightarrow> Inr None
              | first # rest \<Rightarrow>
                  (if isNonNullObject first \<and> hasKey ''brand_name'' first then Inr (Some xs)
                   else Inr None))
         | _ \<Rightarrow>
             orTry (checkKeys E obj [''brands'', ''results''])
            (orTry (if hasKey ''text'' obj \<and> isString (get obj ''text'') then
                      (let parsed = tryParseString E (case get obj ''text'' of JString t \<Rightarrow> t | _ \<Rightarrow> [])
                       in if truthy parsed then findBrandsInObject E parsed (depth + 1)
                          else Inr None)
                    else Inr None)
            (orTry (if hasKey ''result'' obj then
                      findBrandsInObject E (resolveValue E (get obj ''result'') 0) (depth + 1)
                    else Inr None)
            (orTry (if hasKey ''response'' obj then
                      findBrandsInObject E (resolveValue E (get obj ''response'') 0) (depth + 1)
                    else Inr None)
            (orTry (if hasKey ''data'' obj then
                      findBrandsInObject E (resolveValue E (get obj ''data'') 0) (depth + 1)
                    else Inr None)
                   (Inr None)))))))"
  by pat_completeness auto
termination
  by (relation "measure (\<lambda>(E, obj, depth). 5 - depth)") auto

declare findBrandsInObject.simps [simp del]

section \<open>The Response Orchestrator\<close>

definition orNext :: "error + jsval list option \<Rightarrow> error + jsval list \<Rightarrow> error + jsval list" where
  \<comment> \<open>\<^verbatim>\<open>const found = ...; if (found && found.length > 0) return found\<close>, then the rest\<close>
  "orNext found rest =
     (case found of
        Inl e \<Rightarrow> Inl e
      | Inr None \<Rightarrow> rest
      | Inr (Some bs) \<Rightarrow> if length bs > 0 then Inr bs else rest)"

definition strategy5 :: "jsval \<Rightarrow> jsval list" where
  \<comment> \<open>the last block of the body: the resolved \<^verbatim>\<open>response.result\<close> itself, or \<^verbatim>\<open>[]\<close>\<close>
  "strategy5 resultData =
     (case resultData of
        JArray xs \<Rightarrow>
          (case xs of
             [] \<Rightarrow> []
           | first # rest \<Rightarrow>
               if isNonNullObject first \<and> hasKey ''brand_name'' first then xs else [])
      | _ \<Rightarrow> [])"

definition tryBody :: "js_env \<Rightarrow> jsval \<Rightarrow> error + jsval list" where
  \<comment> \<open>the \<^verbatim>\<open>try\<close> block of \<^verbatim>\<open>parseAgentResponse\<close>\<close>
  "tryBody E result =
     (let resultData = resolveValue E (get (get result ''response'') ''result'') 0
      in orNext (findBrandsInObject E resultData 0)
        (orNext (findBrandsInObject E (get result ''response'') 0)
        (orNext (findBrandsInObject E result 0)
        (orNext (if truthy (get result ''raw_response'') then
                   findBrandsInObject E (resolveValue E (get result ''raw_response'') 0) 0
                 else Inr None)
                (Inr (strategy5 resultData))))))"

definition parseAgentResponse :: "js_env \<Rightarrow> jsval \<Rightarrow> jsval list" where
  "parseAgentResponse E result = (case tryBody E result of Inl e \<Rightarrow> [] | Inr bs \<Rightarrow> bs)"

text \<open>The same function with the block of strategy 5 deleted.\<close>

definition tryBody_without5 :: "js_env \<Rightarrow> jsval \<Rightarrow> error + jsval list" where
  "tryBody_without5 E result =
     (let resultData = resolveValue E (get (get result ''response'') ''result'') 0
      in orNext (findBrandsInObject E resultData 0)
        (orNext (findBrandsInObject E (get result ''response'') 0)
        (orNext (findBrandsInObject E result 0)
        (orNext (if truthy (get result ''raw_response'') then
                   findBrandsInObject E (resolveValue E (get result ''raw_response'') 0) 0
                 else Inr None)
                (Inr [])))))"

definition parseAgentResponse_without5 :: "js_env \<Rightarrow> jsval \<Rightarrow> jsval list" where
  "parseAgentResponse_without5 E result =
     (case tryBody_without5 E result of Inl e \<Rightarrow> [] | Inr bs \<Rightarrow> bs)"

section \<open>The Metadata Extractor\<close>







section \<open>The CSV export\<close>

text \<open>
  \<^verbatim>\<open>exportCSV\<close> is declared over \<^verbatim>\<open>Brand[]\<close>, but the brands it is handed are the
  objects the Brand Extractor found in the response, cast and not checked, so a field
  can hold any value. A brand is therefore a \<open>jsval\<close> here as well, and the call of
  \<^verbatim>\<open>replace\<close> on a field that is truthy and not a string raises. The model is the text
  handed to the \<^verbatim>\<open>Blob\<close>.
\<close>

definition isNotFound :: "jsval \<Rightarrow> error + bool" where
  \<comment> \<open>\<^verbatim>\<open>val.trim()\<close> is a call of a missing method unless the truthy \<open>val\<close> is a string\<close>
  "isNotFound val =
     (if \<not> truthy val then Inr True
      else (case val of
              JString v \<Rightarrow> Inr (toLowerCase (trim v) = ''not found'' \<or> trim v = [])
            | _ \<Rightarrow> Inl TypeError))"

definition headers :: "string list" where
  "headers =
     [''Brand Name'', ''Category'', ''Website'', ''Website Scope'', ''Confidence'',
      ''Verification Notes'', ''Logo URL'', ''Founded Year'', ''About Summary'', ''About Page'',
      ''Twitter'', ''LinkedIn'', ''Instagram'', ''Facebook'', ''YouTube'', ''TikTok'',
      ''Pinterest'', ''Email'', ''Phone'', ''HQ Address'', ''Status'']"

definition rowOf :: "jsval \<Rightarrow> jsval list" where
  "rowOf b =
     [get b ''brand_name'', get b ''product_category'', get b ''website_url'',
      get b ''website_scope'', get b ''confidence'', get b ''verification_notes'',
      get b ''logo_url'', get b ''founded_year'', get b ''about_summary'',
      get b ''about_page_link'',
      get (get b ''social_media'') ''twitter'', get (get b ''social_media'') ''linkedin'',
      get (get b ''social_media'') ''instagram'', get (get b ''social_media'') ''facebook'',
      get (get b ''social_media'') ''youtube'', get (get b ''social_media'') ''tiktok'',
      get (get b ''social_media'') ''pinterest'',
      get (get b ''contact_info'') ''email'', get (get b ''contact_info'') ''phone'',
      get (get b ''contact_info'') ''hq_address'',
      get b ''status'']"

definition doubleQuotes :: "string \<Rightarrow> string" where
  \<comment> \<open>\<^verbatim>\<open>.replace(/"/g, '""')\<close>\<close>
  "doubleQuotes s = concat (map (\<lambda>c. if c = CHR 0x22 then [CHR 0x22, CHR 0x22] else [c]) s)"

definition csvCell :: "jsval \<Rightarrow> error + string" where
  \<comment> \<open>the template literal around \<^verbatim>\<open>(v || '').replace(/"/g, '""')\<close>\<close>
  "csvCell v =
     (case (if truthy v then v else JString []) of
        JString s \<Rightarrow> Inr ([CHR 0x22] @ doubleQuotes s @ [CHR 0x22])
      | _ \<Rightarrow> Inl TypeError)"

definition cellsOf :: "jsval list \<Rightarrow> error + string list list" where
  \<comment> \<open>\<^verbatim>\<open>rows.map((r) => r.map((v) => ...))\<close>\<close>
  "cellsOf brands = mapM (\<lambda>r. mapM csvCell r) (map rowOf brands)"

definition exportCSV :: "jsval list \<Rightarrow> error + string" where
  "exportCSV brands =
     (case cellsOf brands of
        Inl e \<Rightarrow> Inl e
      | Inr cells \<Rightarrow>
          Inr (join [CHR 0x0A] (join '','' headers # map (\<lambda>r. join '','' r) cells)))"

section \<open>A concrete platform\<close>

text \<open>
  The theorems below hold for every \<open>js_env\<close>. To run the engine on concrete responses
  the two built-ins are written out after ECMA-262: \<^verbatim>\<open>JSON.parse\<close> as a recursive-descent
  reader of the JSON grammar (white space, literals, numbers with fraction and exponent,
  strings with their escapes, arrays, objects with the last duplicate key winning), and
  the decimal text of a number. The limits of this instance: a \<^verbatim>\<open>\u\<close> escape of a code
  unit above 255 is not representable in \<open>string\<close> and is refused; a number literal is
  read as its exact rational value, without the rounding, underflow and overflow of an
  IEEE double; and the text of a number is its exact decimal expansion, which is what
  JavaScript prints for integers below \<open>10^21\<close> and for short decimals only. No closed
  example below reaches one of these cases. The reader counts down a fuel of twice the length of the text plus two,
  more than the number of nested calls any text can cause.
\<close>

definition isJsonWs :: "char \<Rightarrow> bool" where
  "isJsonWs c = (c \<in> set [CHR 0x20, CHR 0x09, CHR 0x0A, CHR 0x0D])"

definition skipWs :: "string \<Rightarrow> string" where
  "skipWs s = dropWhile isJsonWs s"

definition isDigit :: "char \<Rightarrow> bool" where
  "isDigit c = (48 \<le> (of_char c :: nat) \<and> (of_char c :: nat) \<le> 57)"

definition digitsVal :: "string \<Rightarrow> nat" where
  "digitsVal ds = foldl (\<lambda>a c. 10 * a + ((of_char c :: nat) - 48)) 0 ds"

definition hexVal :: "char \<Rightarrow> nat option" where
  "hexVal c =
     (let n = (of_char c :: nat)
      in if 48 \<le> n \<and> n \<le> 57 then Some (n - 48)
         else if 65 \<le> n \<and> n \<le> 70 then Some (n - 55)
         else if 97 \<le> n \<and> n \<le> 102 then Some (n - 87)
         else None)"

definition hex4 :: "char \<Rightarrow> char \<Rightarrow> char \<Rightarrow> char \<Rightarrow> nat option" where
  "hex4 a b c d =
     (case (hexVal a, hexVal b, hexVal c, hexVal d) of
        (Some w, Some x, Some y, Some z) \<Rightarrow> Some (((w * 16 + x) * 16 + y) * 16 + z)
      | _ \<Rightarrow> None)"

definition unescape :: "char \<Rightarrow> char option" where
  "unescape e =
     (if e = CHR 0x22 then Some (CHR 0x22)
      else if e = CHR 0x5C then Some (CHR 0x5C)
      else if e = CHR ''/'' then Some (CHR ''/'')
      else if e = CHR ''b'' then Some (CHR 0x08)
      else if e = CHR ''f'' then Some (CHR 0x0C)
      else if e = CHR ''n'' then Some (CHR 0x0A)
      else if e = CHR ''r'' then Some (CHR 0x0D)
      else if e = CHR ''t'' then Some (CHR 0x09)
      else None)"

definition consFst :: "'a \<Rightarrow> ('a list \<times> 'b) option \<Rightarrow> ('a list \<times> 'b) option" where
  "consFst x res = (case res of None \<Rightarrow> None | Some (xs, r) \<Rightarrow> Some (x # xs, r))"

fun parse_chars :: "string \<Rightarrow> (string \<times> string) option" where
  \<comment> \<open>the characters of a string literal after its opening quote, and the rest of the text\<close>
  "parse_chars [] = None"
| "parse_chars (c # cs) =
     (if c = CHR 0x22 then Some ([], cs)
      else if c = CHR 0x5C then
        (case cs of
           [] \<Rightarrow> None
         | e # cs1 \<Rightarrow>
             (if e = CHR ''u'' then
                (case cs1 of
                   h1 # h2 # h3 # h4 # cs2 \<Rightarrow>
                     (case hex4 h1 h2 h3 h4 of
                        None \<Rightarrow> None
                      | Some n \<Rightarrow> if n < 256 then consFst (char_of n) (parse_chars cs2) else None)
                 | _ \<Rightarrow> None)
              else (case unescape e of
                      None \<Rightarrow> None
                    | Some d \<Rightarrow> consFst d (parse_chars cs1))))
      else if (of_char c :: nat) < 32 then None
      else consFst c (parse_chars cs))"

definition parse_number :: "string \<Rightarrow> (rat \<times> string) option" where
  "parse_number s =
     (let neg = (take 1 s = ''-'');
          s1 = (if neg then drop 1 s else s);
          ip = takeWhile isDigit s1;
          s2 = dropWhile isDigit s1;
          hasFrac = (take 1 s2 = ''.'');
          fp = (if hasFrac then takeWhile isDigit (drop 1 s2) else []);
          s3 = (if hasFrac then dropWhile isDigit (drop 1 s2) else s2);
          hasExp = (take 1 s3 = ''e'' \<or> take 1 s3 = ''E'');
          s4 = (if hasExp then drop 1 s3 else s3);
          expNeg = (take 1 s4 = ''-'');
          s5 = (if hasExp \<and> (expNeg \<or> take 1 s4 = ''+'') then drop 1 s4 else s4);
          ep = (if hasExp then takeWhile isDigit s5 else []);
          s6 = (if hasExp then dropWhile isDigit s5 else s3);
          e = (if expNeg then - int (digitsVal ep) else int (digitsVal ep)) - int (length fp);
          m = (of_nat (digitsVal (ip @ fp)) :: rat);
          v = (if e \<ge> 0 then m * 10 ^ nat e else m / 10 ^ nat (- e))
      in if ip = [] \<or> (length ip > 1 \<and> take 1 ip = ''0'') \<or> (hasFrac \<and> fp = []) \<or>
            (hasExp \<and> ep = [])
         then None
         else Some (if neg then - v else v, s6))"

fun putProp :: "(string \<times> jsval) list \<Rightarrow> string \<times> jsval \<Rightarrow> (string \<times> jsval) list" where
  \<comment> \<open>defining a property: a key already there keeps its place and takes the new value\<close>
  "putProp [] kv = [kv]"
| "putProp ((k, v) # kvs) kv = (if k = fst kv then kv # kvs else (k, v) # putProp kvs kv)"

fun parse_value :: "nat \<Rightarrow> string \<Rightarrow> (jsval \<times> string) option"
  and parse_elements :: "nat \<Rightarrow> string \<Rightarrow> (jsval list \<times> string) option"
  and parse_members :: "nat \<Rightarrow> string \<Rightarrow> ((string \<times> jsval) list \<times> string) option" where
  "parse_value 0 s = None"
| "parse_value (Suc n) s =
     (case skipWs s of
        [] \<Rightarrow> None
      | c # cs \<Rightarrow>
          (if c = CHR 0x7B then
             (if take 1 (skipWs cs) = [CHR 0x7D] then Some (JObject [], drop 1 (skipWs cs))
              else (case parse_members n cs of
                      None \<Rightarrow> None
                    | Some (kvs, r) \<Rightarrow> Some (JObject (foldl putProp [] kvs), r)))
           else if c = CHR 0x5B then
             (if take 1 (skipWs cs) = [CHR 0x5D] then Some (JArray [], drop 1 (skipWs cs))
              else (case parse_elements n cs of
                      None \<Rightarrow> None
                    | Some (vs, r) \<Rightarrow> Some (JArray vs, r)))
           else if c = CHR 0x22 then
             (case parse_chars cs of
                None \<Rightarrow> None
              | Some (str, r) \<Rightarrow> Some (JString str, r))
           else if take 4 (c # cs) = ''true'' then Some (JBool True, drop 4 (c # cs))
           else if take 5 (c # cs) = ''false'' then Some (JBool False, drop 5 (c # cs))
           else if take 4 (c # cs) = ''null'' then Some (JNull, drop 4 (c # cs))
           else (case parse_number (c # cs) of
                   None \<Rightarrow> None
                 | Some (q, r) \<Rightarrow> Some (JNumber q, r))))"
| "parse_elements 0 s = None"
| "parse_elements (Suc n) s =
     (case parse_value n s of
        None \<Rightarrow> None
      | Some (v, r) \<Rightarrow>
          (case skipWs r of
             [] \<Rightarrow> None
           | c # cs \<Rightarrow>
               (if c = CHR '','' then consFst v (parse_elements n cs)
                else if c = CHR 0x5D then Some ([v], cs)
                else None)))"
| "parse_members 0 s = None"
| "parse_members (Suc n) s =
     (case skipWs s of
        [] \<Rightarrow> None
      | c # cs \<Rightarrow>
          (if c = CHR 0x22 then
             (case parse_chars cs of
                None \<Rightarrow> None
              | Some (k, r) \<Rightarrow>
                  (case skipWs r of
                     [] \<Rightarrow> None
                   | d # ds \<Rightarrow>
                       (if d = CHR '':'' then
                          (case parse_value n ds of
                             None \<Rightarrow> None
                           | Some (v, r2) \<Rightarrow>
                               (case skipWs r2 of
                                  [] \<Rightarrow> None
                                | e # es \<Rightarrow>
                                    (if e = CHR '','' then consFst (k, v) (parse_members n es)
                                     else if e = CHR 0x7D then Some ([(k, v)], es)
                                     else None)))
                        else None)))
           else None))"

definition json_parse :: "string \<Rightarrow> jsval option" where
  "json_parse s =
     (case parse_value (2 * length s + 2) s of
        None \<Rightarrow> None
      | Some (v, r) \<Rightarrow> if skipWs r = [] then Some v else None)"

fun showNat :: "nat \<Rightarrow> string" where
  "showNat n =
     (if n < 10 then [char_of (48 + n)] else showNat (n div 10) @ [char_of (48 + n mod 10)])"

declare showNat.simps [simp del]

fun fracDigits :: "nat \<Rightarrow> rat \<Rightarrow> string" where
  "fracDigits 0 r = []"
| "fracDigits (Suc k) r =
     (if r = 0 then []
      else char_of (48 + nat \<lfloor>r * 10\<rfloor>) # fracDigits k (r * 10 - of_int \<lfloor>r * 10\<rfloor>))"

definition number_toString :: "rat \<Rightarrow> string" where
  "number_toString q =
     (let a = \<bar>q\<bar>;
          whole = nat \<lfloor>a\<rfloor>;
          rest = a - of_int \<lfloor>a\<rfloor>
      in (if q < 0 then ''-'' else []) @ showNat whole @
         (if rest = 0 then [] else ''.'' @ fracDigits 17 rest))"

definition ecma :: js_env where
  "ecma = \<lparr>JSON_parse = json_parse, Number_toString = number_toString\<rparr>"

section \<open>Test data and measures\<close>

definition hexDigit :: "nat \<Rightarrow> char" where
  "hexDigit n = (if n < 10 then char_of (48 + n) else char_of (87 + n))"

definition quoteChar :: "char \<Rightarrow> string" where
  "quoteChar c =
     (if c = CHR 0x22 then [CHR 0x5C, CHR 0x22]
      else if c = CHR 0x5C then [CHR 0x5C, CHR 0x5C]
      else if c = CHR 0x08 then [CHR 0x5C, CHR ''b'']
      else if c = CHR 0x0C then [CHR 0x5C, CHR ''f'']
      else if c = CHR 0x0A then [CHR 0x5C, CHR ''n'']
      else if c = CHR 0x0D then [CHR 0x5C, CHR ''r'']
      else if c = CHR 0x09 then [CHR 0x5C, CHR ''t'']
      else if (of_char c :: nat) < 32
        then [CHR 0x5C, CHR ''u'', CHR ''0'', CHR ''0'',
              hexDigit ((of_char c :: nat) div 16), hexDigit ((of_char c :: nat) mod 16)]
      else [c])"

definition stringify :: "string \<Rightarrow> string" where
  \<comment> \<open>\<^verbatim>\<open>JSON.stringify\<close> of a string: the text of its JSON literal\<close>
  "stringify s = [CHR 0x22] @ concat (map quoteChar s) @ [CHR 0x22]"

fun nested :: "nat \<Rightarrow> string \<Rightarrow> string" where
  \<comment> \<open>\<open>s\<close> under \<open>n\<close> levels of JSON-encoding\<close>
  "nested 0 s = s"
| "nested (Suc n) s = stringify (nested n s)"

definition quoted :: "string \<Rightarrow> string" where
  "quoted s = CHR 0x22 # s @ [CHR 0x22]"

fun unwrap :: "js_env \<Rightarrow> nat \<Rightarrow> string \<Rightarrow> string option" where
  \<comment> \<open>\<open>unwrap E n s = Some t\<close>: \<open>s\<close> holds \<open>n\<close> levels of encoding around the string \<open>t\<close>,
      each one read by \<open>tryParseString\<close>\<close>
  "unwrap E 0 s = Some s"
| "unwrap E (Suc n) s =
     (case tryParseString E s of JString t \<Rightarrow> unwrap E n t | _ \<Rightarrow> None)"

function resolveCalls :: "js_env \<Rightarrow> jsval \<Rightarrow> nat \<Rightarrow> nat" where
  \<comment> \<open>the number of recursive calls \<open>resolveValue\<close> makes below the call at hand\<close>
  "resolveCalls E val depth =
     (if depth > 5 then 0
      else (case val of
              JString s \<Rightarrow>
                (let parsed = tryParseString E s
                 in if parsed \<noteq> JNull then Suc (resolveCalls E parsed (depth + 1)) else 0)
            | _ \<Rightarrow> 0))"
  by pat_completeness auto
termination
  by (relation "measure (\<lambda>(E, val, depth). 6 - depth)") auto

declare resolveCalls.simps [simp del]

section \<open>The claims' vocabulary\<close>

text \<open>The five strategies of the Response Orchestrator, in the order of the source.\<close>

definition directList :: "jsval \<Rightarrow> jsval list option" where
  \<comment> \<open>strategy 5: the resolved \<^verbatim>\<open>response.result\<close> when it is itself a brand list\<close>
  "directList resultData =
     (case resultData of
        JArray xs \<Rightarrow>
          (case xs of
             [] \<Rightarrow> None
           | first # rest \<Rightarrow>
               if isNonNullObject first \<and> hasKey ''brand_name'' first then Some xs else None)
      | _ \<Rightarrow> None)"

definition strategies :: "js_env \<Rightarrow> jsval \<Rightarrow> (error + jsval list option) list" where
  "strategies E agentResponse =
     [findBrandsInObject E (resolveValue E (get (get agentResponse ''response'') ''result'') 0) 0,
      findBrandsInObject E (get agentResponse ''response'') 0,
      findBrandsInObject E agentResponse 0,
      (if truthy (get agentResponse ''raw_response'')
       then findBrandsInObject E (resolveValue E (get agentResponse ''raw_response'') 0) 0
       else Inr None),
      Inr (directList (resolveValue E (get (get agentResponse ''response'') ''result'') 0))]"

fun firstNonEmpty :: "(error + jsval list option) list \<Rightarrow> jsval list" where
  \<comment> \<open>the specification's reading: a strategy that fails, in whatever way, is passed over\<close>
  "firstNonEmpty [] = []"
| "firstNonEmpty (Inr (Some bs) # rest) = (if bs \<noteq> [] then bs else firstNonEmpty rest)"
| "firstNonEmpty (Inr None # rest) = firstNonEmpty rest"
| "firstNonEmpty (Inl e # rest) = firstNonEmpty rest"

fun firstNonEmptyUnlessRaised :: "(error + jsval list option) list \<Rightarrow> jsval list" where
  \<comment> \<open>the same search, ended with the empty list by the first strategy that raises\<close>
  "firstNonEmptyUnlessRaised [] = []"
| "firstNonEmptyUnlessRaised (Inr (Some bs) # rest) =
     (if bs \<noteq> [] then bs else firstNonEmptyUnlessRaised rest)"
| "firstNonEmptyUnlessRaised (Inr None # rest) = firstNonEmptyUnlessRaised rest"
| "firstNonEmptyUnlessRaised (Inl e # rest) = []"

definition response1 :: jsval where
  \<comment> \<open>an alternate-schema record with a numeric confidence under \<^verbatim>\<open>response.result\<close>, and
      a canonical brand list in \<^verbatim>\<open>raw_response\<close>\<close>
  "response1 =
     JObject
       [(''response'', JObject
           [(''result'', JObject
               [(''results'', JArray
                   [JObject [(''selected_official_website'', JString ''https://www.nike.com''),
                             (''confidence'', JNumber (9 / 10))]])])]),
        (''raw_response'',
           JString (''{'' @ quoted ''brands'' @ '':[{'' @ quoted ''brand_name'' @ '':'' @
                    quoted ''Nike'' @ ''}]}''))]"

definition sample1 :: jsval where
  "sample1 = JObject [(''website_details'', JObject []), (''confidence'', JNumber (9 / 10))]"







text \<open>Reading a quoted CSV field back: the quotes around it removed, doubled quotes halved.\<close>

fun unquoteBody :: "string \<Rightarrow> string option" where
  "unquoteBody [] = None"
| "unquoteBody [c] = (if c = CHR 0x22 then Some [] else None)"
| "unquoteBody (c # d # cs) =
     (if c = CHR 0x22 then
        (if d = CHR 0x22 then map_option ((#) (CHR 0x22)) (unquoteBody cs) else None)
      else map_option ((#) c) (unquoteBody (d # cs)))"

definition readCell :: "string \<Rightarrow> string option" where
  "readCell cell =
     (case cell of [] \<Rightarrow> None | c # cs \<Rightarrow> if c = CHR 0x22 then unquoteBody cs else None)"

definition valueOr :: "jsval \<Rightarrow> string" where
  \<comment> \<open>the text of \<^verbatim>\<open>v || ''\<close> for a field that is falsy or a string\<close>
  "valueOr v = (case v of JString s \<Rightarrow> s | _ \<Rightarrow> [])"

definition brand1 :: jsval where
  "brand1 =
     JObject
       [(''brand_name'', JString ''Acme''),
        (''website_url'', JString ''Not Found''),
        (''website_scope'', JString []),
        (''confidence'', JNull),
        (''verification_notes'', JString (''say '' @ quoted ''hi''))]"

definition brand2 :: jsval where
  "brand2 = JObject [(''brand_name'', JString ''Adidas''), (''founded_year'', JNumber 1949)]"

text \<open>
  The brand-name input parser, piece by piece: a piece between separators is trimmed;
  a blank piece is dropped; a piece that is a header token once in lower case and with
  every quote character removed is dropped; the others lose one quote character at the
  start and one at the end, are trimmed again and dropped if blank.
\<close>

definition sampleInput :: string where
  "sampleInput = ''Brand Name'' @ [CHR 0x0A] @ ''Nike'' @ [CHR 0x0A] @ '', Apple,'' @ [CHR 0x0A]"

definition sampleQuoted :: string where
  \<comment> \<open>quoted names, quoted and unquoted headers in mixed case, a name given twice\<close>
  "sampleQuoted =
     '' '' @ quoted ''Nike'' @ '' ,'' @ [CHR 0x27] @ ''Apple'' @ [CHR 0x27, CHR 0x0A]
     @ quoted ''BRAND'' @ [CHR 0x0A] @ ''Company Name,'' @ [CHR 0x09] @ ''Nike '' @ [CHR 0x0A]
     @ quoted '' Puma''"

definition isHeader :: "string \<Rightarrow> bool" where
  "isHeader line = (filter (\<lambda>c. \<not> isQuote c) (toLowerCase line) \<in> set headerTokens)"

definition unquoteEnds :: "string \<Rightarrow> string" where
  "unquoteEnds l =
     (let a = (if l \<noteq> [] \<and> isQuote (hd l) then 1 else 0);
          m = drop a l;
          b = (if m \<noteq> [] \<and> isQuote (last m) then 1 else 0)
      in take (length m - b) m)"

fun namesOf :: "string list \<Rightarrow> string list" where
  "namesOf [] = []"
| "namesOf (piece # pieces) =
     (if trim piece = [] \<or> isHeader (trim piece) then namesOf pieces
      else if trim (unquoteEnds (trim piece)) = [] then namesOf pieces
      else trim (unquoteEnds (trim piece)) # namesOf pieces)"

section \<open>Unfolding the resolver\<close>

lemma resolveValue_string:
  "resolveValue E (JString s) d =
     (if d > 5 then JString s
      else if tryParseString E s \<noteq> JNull then resolveValue E (tryParseString E s) (d + 1)
      else JString s)"
  by (simp add: resolveValue.simps [of E "JString s" d] Let_def)


lemma resolveCalls_string:
  "resolveCalls E (JString s) d =
     (if d > 5 then 0
      else if tryParseString E s \<noteq> JNull then Suc (resolveCalls E (tryParseString E s) (d + 1))
      else 0)"
  by (simp add: resolveCalls.simps [of E "JString s" d] Let_def)

lemma resolveCalls_other: "\<not> isString v \<Longrightarrow> resolveCalls E v d = 0"
  by (cases v) (simp_all add: resolveCalls.simps [of E _ d] isString_def)

lemma isString_cases: "isString v \<Longrightarrow> \<exists>s. v = JString s"
  by (cases v) (simp_all add: isString_def)

lemma resolveCalls_le: "resolveCalls E v d \<le> 6 - d"
proof (induction E v d rule: resolveCalls.induct)
  case (1 E val depth)
  show ?case
  proof (cases "isString val")
    case False
    then show ?thesis by (simp add: resolveCalls_other)
  next
    case True
    then obtain s where s: "val = JString s" using isString_cases by blast
    show ?thesis
    proof (cases "depth > 5 \<or> tryParseString E s = JNull")
      case True
      then show ?thesis unfolding s by (auto simp add: resolveCalls_string)
    next
      case False
      then have d: "\<not> depth > 5" and neq: "tryParseString E s \<noteq> JNull" by auto
      have "resolveCalls E (tryParseString E s) (depth + 1) \<le> 6 - (depth + 1)"
        using "1.IH" [OF d s refl neq] .
      then show ?thesis unfolding s using d neq by (simp add: resolveCalls_string)
    qed
  qed
qed


lemma unwrap_resolve:
  "unwrap E n s = Some t \<Longrightarrow> d + n = 6 \<Longrightarrow> resolveValue E (JString s) d = JString t"
proof (induction n arbitrary: s d)
  case 0
  then show ?case by (simp add: resolveValue_string)
next
  case (Suc n)
  from Suc.prems(1) obtain u
    where u: "tryParseString E s = JString u" and r: "unwrap E n u = Some t"
    by (auto split: jsval.splits)
  have "resolveValue E (JString u) (d + 1) = JString t"
    using Suc.IH [OF r] Suc.prems(2) by simp
  then show ?case using u Suc.prems(2) by (simp add: resolveValue_string)
qed

lemma unwrap_add:
  "unwrap E (m + n) s = Some t \<Longrightarrow> \<exists>u. unwrap E m s = Some u \<and> unwrap E n u = Some t"
  by (induction m arbitrary: s) (auto split: jsval.splits)

section \<open>Reading back what \<open>stringify\<close> wrote\<close>

lemma quoteChar_printable:
  assumes "32 \<le> (of_char c :: nat)"
  shows "quoteChar c = (if c = CHR 0x22 then [CHR 0x5C, CHR 0x22]
                        else if c = CHR 0x5C then [CHR 0x5C, CHR 0x5C] else [c])"
  using assms by (auto simp add: quoteChar_def)

lemma parse_chars_quote:
  "\<forall>c \<in> set s. 32 \<le> (of_char c :: nat) \<Longrightarrow>
   parse_chars (concat (map quoteChar s) @ CHR 0x22 # r) = Some (s, r)"
proof (induction s)
  case Nil
  then show ?case by simp
next
  case (Cons c s)
  then have ge: "32 \<le> (of_char c :: nat)" and
    ih: "parse_chars (concat (map quoteChar s) @ CHR 0x22 # r) = Some (s, r)" by simp_all
  have nlt: "\<not> (of_char c :: nat) < 32" using ge by simp
  show ?case
    using ih nlt by (simp add: quoteChar_printable [OF ge] consFst_def unescape_def)
qed

lemma trim_id:
  assumes "s \<noteq> []" "\<not> isWhiteSpace (hd s)" "\<not> isWhiteSpace (last s)"
  shows "trim s = s"
proof -
  have 1: "dropWhile isWhiteSpace s = s" using assms(1,2) by (cases s) simp_all
  have 2: "dropWhile isWhiteSpace (rev s) = rev s"
    using assms(1,3) by (cases "rev s") (simp_all add: last_rev [symmetric] hd_rev)
  show ?thesis by (simp add: trim_def 1 2)
qed

lemma json_parse_stringify:
  assumes "\<forall>c \<in> set s. 32 \<le> (of_char c :: nat)"
  shows "json_parse (stringify s) = Some (JString s)"
proof -
  have "parse_chars (concat (map quoteChar s) @ CHR 0x22 # []) = Some (s, [])"
    using parse_chars_quote [OF assms] .
  then show ?thesis
    by (simp add: json_parse_def stringify_def skipWs_def isJsonWs_def)
qed

lemma tryParseString_stringify:
  assumes "\<forall>c \<in> set s. 32 \<le> (of_char c :: nat)"
  shows "tryParseString ecma (stringify s) = JString s"
proof -
  have t: "trim (stringify s) = stringify s"
    by (rule trim_id) (simp_all add: stringify_def isWhiteSpace_def)
  show ?thesis
    by (simp add: tryParseString_def t ecma_def json_parse_stringify [OF assms])
       (simp add: stringify_def)
qed

lemma stringify_printable:
  "\<forall>c \<in> set s. 32 \<le> (of_char c :: nat) \<Longrightarrow>
   \<forall>c \<in> set (stringify s). 32 \<le> (of_char c :: nat)"
  by (auto simp add: stringify_def quoteChar_printable split: if_splits)

lemma nested_printable:
  "\<forall>c \<in> set s. 32 \<le> (of_char c :: nat) \<Longrightarrow>
   \<forall>c \<in> set (nested n s). 32 \<le> (of_char c :: nat)"
  by (induction n) (simp_all add: stringify_printable del: ball_simps)

lemma unwrap_nested:
  "\<forall>c \<in> set s. 32 \<le> (of_char c :: nat) \<Longrightarrow>
   unwrap ecma n (nested (n + m) s) = Some (nested m s)"
  by (induction n) (simp_all add: tryParseString_stringify nested_printable)

section \<open>The Value Resolver: claims\<close>

text \<open>
  Claim C10. A string whose JSON parse succeeds with the value \<^verbatim>\<open>null\<close> is treated as
  unparseable: \<open>resolveValue\<close> returns the original string, untrimmed, at every depth.
\<close>

theorem resolveValue_parsed_null:
  "JSON_parse E (trim s) = Some JNull \<Longrightarrow> resolveValue E (JString s) d = JString s"
  by (simp add: resolveValue_string tryParseString_def)

theorem resolveValue_parsed_null_witness:
  "JSON_parse ecma (trim '' null '') = Some JNull \<and>
   resolveValue ecma (JString '' null '') 0 = JString '' null ''"
proof -
  have h: "JSON_parse ecma (trim '' null '') = Some JNull" by code_simp
  show ?thesis using h resolveValue_parsed_null [OF h, of 0] by simp
qed

text \<open>
  Claim C5. The recursion of \<open>resolveValue\<close> is bounded by its depth parameter: a call at
  depth \<open>d\<close> makes at most \<open>6 - d\<close> further calls, whatever the input; beyond depth 5 the
  value is returned unchanged; and a string under ten levels of JSON-encoding resolves,
  from depth 0, to the string that still carries the four innermost levels.
\<close>

theorem resolveValue_depth_bounded:
  "resolveCalls E v d \<le> 6 - d \<and>
   (5 < d \<longrightarrow> resolveValue E v d = v) \<and>
   (unwrap E 10 s = Some t \<longrightarrow>
      (\<exists>u. resolveValue E (JString s) 0 = JString u \<and>
           unwrap E 6 s = Some u \<and> unwrap E 4 u = Some t))"
proof (intro conjI impI)
  show "resolveCalls E v d \<le> 6 - d" by (rule resolveCalls_le)
next
  assume "5 < d"
  then show "resolveValue E v d = v" by (simp add: resolveValue.simps [of E v d])
next
  assume "unwrap E 10 s = Some t"
  then have "unwrap E (6 + 4) s = Some t" by simp
  then obtain u where u: "unwrap E 6 s = Some u" "unwrap E 4 u = Some t"
    using unwrap_add by blast
  have "resolveValue E (JString s) 0 = JString u" using unwrap_resolve [OF u(1)] by simp
  then show "\<exists>u. resolveValue E (JString s) 0 = JString u \<and>
                 unwrap E 6 s = Some u \<and> unwrap E 4 u = Some t"
    using u by blast
qed

theorem resolveValue_depth_bounded_witness:
  "unwrap ecma 10 (nested 10 ''Nike'') = Some ''Nike'' \<and>
   resolveValue ecma (JString (nested 10 ''Nike'')) 0 = JString (nested 4 ''Nike'') \<and>
   resolveValue ecma (JString (nested 10 ''Nike'')) 6 = JString (nested 10 ''Nike'')"
proof -
  have p: "\<forall>c \<in> set ''Nike''. 32 \<le> (of_char c :: nat)" by simp
  have h10: "unwrap ecma 10 (nested 10 ''Nike'') = Some ''Nike''"
    using unwrap_nested [OF p, of 10 0] by simp
  have h6: "unwrap ecma 6 (nested 10 ''Nike'') = Some (nested 4 ''Nike'')"
    using unwrap_nested [OF p, of 6 4] by simp
  have g: "(5::nat) < 6" by simp
  from resolveValue_depth_bounded [of ecma "JString (nested 10 ''Nike'')" 6 "nested 10 ''Nike''" "''Nike''"]
  show ?thesis using h10 h6 g by auto
qed




section \<open>The Brand Extractor and the Orchestrator: claims\<close>

lemma findBrands_array:
  "findBrandsInObject E (JArray xs) d =
     (if d > 4 then Inr None
      else (case xs of
              [] \<Rightarrow> Inr None
            | first # rest \<Rightarrow>
                if isNonNullObject first \<and> hasKey ''brand_name'' first then Inr (Some xs)
                else Inr None))"
  by (simp add: findBrandsInObject.simps [of E "JArray xs" d] truthy_def isNonNullObject_def)

lemma brand_first_iff:
  "(isNonNullObject first \<and> hasKey ''brand_name'' first) =
   (\<exists>kvs. first = JObject kvs \<and> ''brand_name'' \<in> fst ` set kvs)"
  by (cases first) (auto simp add: isNonNullObject_def hasKey_def map_of_eq_None_iff)

text \<open>
  Claim C6. On an array, at a depth within the guard, \<open>findBrandsInObject\<close> returns the
  array itself exactly when it is non-empty and its first element is an object with the
  key \<^verbatim>\<open>brand_name\<close>, and \<^verbatim>\<open>null\<close> for every other array.
\<close>

theorem findBrandsInObject_array:
  "d \<le> 4 \<Longrightarrow>
   findBrandsInObject E (JArray xs) d =
     (if \<exists>kvs rest. xs = JObject kvs # rest \<and> ''brand_name'' \<in> fst ` set kvs
      then Inr (Some xs) else Inr None)"
  by (cases xs) (auto simp add: findBrands_array brand_first_iff)

theorem findBrandsInObject_array_witness:
  "(0::nat) \<le> 4 \<and>
   findBrandsInObject ecma (JArray [JObject [(''brand_name'', JString ''Nike'')], JNull]) 0 =
     Inr (Some [JObject [(''brand_name'', JString ''Nike'')], JNull]) \<and>
   findBrandsInObject ecma (JArray [JObject [(''name'', JString ''Nike'')]]) 0 = Inr None \<and>
   findBrandsInObject ecma (JArray []) 0 = Inr None"
proof -
  have h: "(0::nat) \<le> 4" by simp
  show ?thesis
    using
      findBrandsInObject_array
        [OF h, of ecma "[JObject [(''brand_name'', JString ''Nike'')], JNull]"]
      findBrandsInObject_array [OF h, of ecma "[JObject [(''name'', JString ''Nike'')]]"]
      findBrandsInObject_array [OF h, of ecma "[]"]
    by simp
qed

lemma strategy5_covered:
  "strategy5 v \<noteq> [] \<Longrightarrow> findBrandsInObject E v 0 = Inr (Some (strategy5 v))"
  by (cases v) (auto simp add: strategy5_def findBrands_array split: list.splits if_splits)

text \<open>
  Claim C9. Strategy 5 is redundant: \<open>parseAgentResponse\<close> and the function without that
  block return the same list on every response, since a resolved \<^verbatim>\<open>response.result\<close> that
  strategy 5 would return has already been returned by strategy 1.
\<close>

theorem strategy5_redundant:
  "parseAgentResponse E result = parseAgentResponse_without5 E result"
proof (cases "strategy5 (resolveValue E (get (get result ''response'') ''result'') 0) = []")
  case True
  then show ?thesis
    by (simp add: parseAgentResponse_def parseAgentResponse_without5_def tryBody_def
        tryBody_without5_def Let_def)
next
  case False
  from strategy5_covered [OF False, of E] False show ?thesis
    by (simp add: parseAgentResponse_def parseAgentResponse_without5_def tryBody_def
        tryBody_without5_def Let_def orNext_def)
qed

lemma strategy5_directList:
  "strategy5 v = (case directList v of None \<Rightarrow> [] | Some bs \<Rightarrow> bs)"
  by (auto simp add: strategy5_def directList_def split: jsval.splits list.splits)

lemma orNext_cons:
  "(case rest of Inl e \<Rightarrow> [] | Inr bs \<Rightarrow> bs) = firstNonEmptyUnlessRaised fs \<Longrightarrow>
   (case orNext f rest of Inl e \<Rightarrow> [] | Inr bs \<Rightarrow> bs) = firstNonEmptyUnlessRaised (f # fs)"
  by (cases f) (auto simp add: orNext_def split: option.splits)

lemma orNext_last:
  "(case (Inr (case d of None \<Rightarrow> [] | Some bs \<Rightarrow> bs) :: error + jsval list) of
      Inl e \<Rightarrow> [] | Inr bs \<Rightarrow> bs) = firstNonEmptyUnlessRaised [Inr d]"
  by (cases d) simp_all

lemma orNext_chain:
  "(case orNext f1 (orNext f2 (orNext f3 (orNext f4
           (Inr (case d of None \<Rightarrow> [] | Some bs \<Rightarrow> bs))))) of
      Inl e \<Rightarrow> [] | Inr bs \<Rightarrow> bs) =
   firstNonEmptyUnlessRaised [f1, f2, f3, f4, Inr d]"
  by (intro orNext_cons orNext_last)

lemma parseAgentResponse_unfold:
  "parseAgentResponse E agentResponse = firstNonEmptyUnlessRaised (strategies E agentResponse)"
  unfolding parseAgentResponse_def tryBody_def strategies_def Let_def strategy5_directList
  by (rule orNext_chain)

lemma firstNonEmpty_no_raise:
  "\<forall>f \<in> set fs. \<not> isl f \<Longrightarrow> firstNonEmptyUnlessRaised fs = firstNonEmpty fs"
  by (induction fs rule: firstNonEmpty.induct) simp_all

text \<open>
  Where no strategy raises, the Orchestrator does what the specification says: it
  returns the first non-empty list that the five strategies, tried in order, find.
\<close>

lemma parseAgentResponse_no_raise:
  "\<forall>f \<in> set (strategies E agentResponse). \<not> isl f \<Longrightarrow>
   parseAgentResponse E agentResponse = firstNonEmpty (strategies E agentResponse)"
  by (simp add: parseAgentResponse_unfold firstNonEmpty_no_raise)

text \<open>
  Claim C3. The five strategies are to be tried in order and the first non-empty list
  found returned. On \<open>response1\<close> the code does not do so: the Schema Mapper raises inside
  strategy 1 on the numeric confidence, the \<^verbatim>\<open>catch\<close> returns the empty list, and the
  brand list that strategy 4 finds in \<^verbatim>\<open>raw_response\<close> is never looked for.
\<close>

theorem parseAgentResponse_misses_raw_response:
  "parseAgentResponse ecma response1 = [] \<and>
   firstNonEmpty (strategies ecma response1) = [JObject [(''brand_name'', JString ''Nike'')]]"
  by code_simp

section \<open>The Schema Mapper: claims\<close>

text \<open>
  Claim C7. The claim holds the mapper total, with status \<^verbatim>\<open>Partial\<close> for a confidence
  that is not a string. On a record whose confidence is the number 0.9 the call of
  \<^verbatim>\<open>toLowerCase\<close> raises a TypeError and no record is returned.
\<close>

theorem mapChatGPTResult_raises:
  "mapChatGPTResult ecma sample1 = Inl TypeError"
  by code_simp

section \<open>The Metadata Extractor: claims\<close>







section \<open>The CSV export: claims\<close>

lemma unquoteBody_doubleQuotes: "unquoteBody (doubleQuotes s @ [CHR 0x22]) = Some s"
proof (induction s)
  case Nil
  then show ?case by (simp add: doubleQuotes_def)
next
  case (Cons c s)
  show ?case
  proof (cases "c = CHR 0x22")
    case True
    then show ?thesis using Cons by (simp add: doubleQuotes_def)
  next
    case False
    have "doubleQuotes (c # s) @ [CHR 0x22] = c # (doubleQuotes s @ [CHR 0x22])"
      using False by (simp add: doubleQuotes_def)
    moreover obtain d ds where "doubleQuotes s @ [CHR 0x22] = d # ds"
      by (cases "doubleQuotes s @ [CHR 0x22]") simp_all
    ultimately show ?thesis using Cons False by simp
  qed
qed

lemma csvCell_text:
  "\<not> truthy v \<or> isString v \<Longrightarrow>
   csvCell v = Inr ([CHR 0x22] @ doubleQuotes (valueOr v) @ [CHR 0x22])"
  by (cases v) (auto simp add: csvCell_def valueOr_def truthy_def isString_def)

lemma csvCell_raises: "truthy v \<Longrightarrow> \<not> isString v \<Longrightarrow> csvCell v = Inl TypeError"
  by (cases v) (simp_all add: csvCell_def isString_def)

lemma readCell_text: "readCell ([CHR 0x22] @ doubleQuotes s @ [CHR 0x22]) = Some s"
  by (simp add: readCell_def unquoteBody_doubleQuotes)

lemma mapM_Inr: "\<forall>x \<in> set xs. f x = Inr (g x) \<Longrightarrow> mapM f xs = Inr (map g xs)"
  by (induction xs) simp_all

lemma length_rowOf: "length (rowOf b) = 21"
  by (simp add: rowOf_def)

text \<open>
  Claim C4, as stated: every absent-valued field is exported as the empty string. The
  field \<^verbatim>\<open>website_url\<close> of \<open>brand1\<close> holds the sentinel text, which \<open>isNotFound\<close> counts as
  absent, and the export writes it out.
\<close>

theorem exportCSV_counterexample:
  "isNotFound (get brand1 ''website_url'') = Inr True \<and>
   exportCSV [brand1] =
     Inr (join [CHR 0x0A]
       [join '','' headers,
        join '','' (map quoted
          ([''Acme'', [], ''Not Found'', [], [], ''say '' @ quoted (quoted ''hi'')]
           @ replicate 15 []))])"
  by code_simp

text \<open>
  A field that is truthy and not a string, such as the founding year as a number, makes
  the export raise; the claims below are about brands whose fields are falsy or strings.
\<close>

lemma exportCSV_raises: "exportCSV [brand2] = Inl TypeError"
  by code_simp

text \<open>
  Claim C4, amended. For brands whose fields are each missing, falsy or a string, the
  export is the header line and one line of 21 fields per brand. Every field is wrapped
  in double quotes with the double quotes inside it doubled, so that reading it back
  gives the field's value; a field that is missing, null or the empty string is exported
  as the empty quoted field; a field holding the sentinel text \<^verbatim>\<open>Not Found\<close> is exported
  with that text.
\<close>

theorem exportCSV_cells:
  assumes "\<forall>b \<in> set brands. \<forall>v \<in> set (rowOf b). \<not> truthy v \<or> isString v"
  shows "\<exists>cells.
     exportCSV brands =
       Inr (join [CHR 0x0A] (join '','' headers # map (join '','') cells)) \<and>
     length cells = length brands \<and>
     (\<forall>i < length brands.
        length (cells ! i) = 21 \<and>
        (\<forall>j < 21.
           readCell (cells ! i ! j) = Some (valueOr (rowOf (brands ! i) ! j)) \<and>
           (\<not> truthy (rowOf (brands ! i) ! j) \<longrightarrow> cells ! i ! j = [CHR 0x22, CHR 0x22]) \<and>
           (rowOf (brands ! i) ! j = JString ''Not Found'' \<longrightarrow>
              cells ! i ! j = quoted ''Not Found'')))"
proof -
  let ?text = "\<lambda>v. [CHR 0x22] @ doubleQuotes (valueOr v) @ [CHR 0x22]"
  let ?cells = "map (\<lambda>r. map ?text r) (map rowOf brands)"
  have row: "\<forall>r \<in> set (map rowOf brands). mapM csvCell r = Inr (map ?text r)"
  proof
    fix r assume "r \<in> set (map rowOf brands)"
    then obtain b where b: "b \<in> set brands" "r = rowOf b" by auto
    have "\<forall>v \<in> set r. csvCell v = Inr (?text v)"
      using assms b csvCell_text by blast
    then show "mapM csvCell r = Inr (map ?text r)" by (rule mapM_Inr)
  qed
  have cells: "cellsOf brands = Inr ?cells"
    unfolding cellsOf_def using row by (rule mapM_Inr)
  have out: "exportCSV brands =
       Inr (join [CHR 0x0A] (join '','' headers # map (join '','') ?cells))"
    by (simp add: exportCSV_def cells)
  have len: "length ?cells = length brands" by simp
  have each: "\<forall>i < length brands.
        length (?cells ! i) = 21 \<and>
        (\<forall>j < 21.
           readCell (?cells ! i ! j) = Some (valueOr (rowOf (brands ! i) ! j)) \<and>
           (\<not> truthy (rowOf (brands ! i) ! j) \<longrightarrow> ?cells ! i ! j = [CHR 0x22, CHR 0x22]) \<and>
           (rowOf (brands ! i) ! j = JString ''Not Found'' \<longrightarrow>
              ?cells ! i ! j = quoted ''Not Found''))"
  proof (intro allI impI conjI)
    fix i assume i: "i < length brands"
    show "length (?cells ! i) = 21" using i by (simp add: length_rowOf)
    fix j :: nat assume j: "j < 21"
    have c: "?cells ! i ! j = ?text (rowOf (brands ! i) ! j)"
      using i j by (simp add: length_rowOf)
    show "readCell (?cells ! i ! j) = Some (valueOr (rowOf (brands ! i) ! j))"
      unfolding c by (rule readCell_text)
    show "?cells ! i ! j = [CHR 0x22, CHR 0x22]" if "\<not> truthy (rowOf (brands ! i) ! j)"
      using that unfolding c
      by (cases "rowOf (brands ! i) ! j") (simp_all add: valueOr_def truthy_def doubleQuotes_def)
    show "?cells ! i ! j = quoted ''Not Found''"
      if "rowOf (brands ! i) ! j = JString ''Not Found''"
      using that unfolding c by (simp add: valueOr_def doubleQuotes_def quoted_def)
  qed
  show ?thesis using out len each by blast
qed

theorem exportCSV_cells_witness:
  "\<exists>cells.
     exportCSV [brand1] =
       Inr (join [CHR 0x0A] (join '','' headers # map (join '','') cells)) \<and>
     length cells = 1 \<and> length (cells ! 0) = 21 \<and>
     cells ! 0 ! 2 = quoted ''Not Found'' \<and>
     cells ! 0 ! 4 = [CHR 0x22, CHR 0x22] \<and>
     readCell (cells ! 0 ! 5) = Some (''say '' @ quoted ''hi'')"
proof -
  have h: "\<forall>b \<in> set [brand1]. \<forall>v \<in> set (rowOf b). \<not> truthy v \<or> isString v" by code_simp
  have r2: "rowOf brand1 ! 2 = JString ''Not Found''" by code_simp
  have r4: "\<not> truthy (rowOf brand1 ! 4)" by code_simp
  have r5: "valueOr (rowOf brand1 ! 5) = ''say '' @ quoted ''hi''" by code_simp
  from exportCSV_cells [OF h] obtain cells where
    c: "exportCSV [brand1] =
          Inr (join [CHR 0x0A] (join '','' headers # map (join '','') cells))"
    and len: "length cells = length [brand1]"
    and all: "\<forall>i < length [brand1]. length (cells ! i) = 21 \<and>
        (\<forall>j < 21.
           readCell (cells ! i ! j) = Some (valueOr (rowOf ([brand1] ! i) ! j)) \<and>
           (\<not> truthy (rowOf ([brand1] ! i) ! j) \<longrightarrow> cells ! i ! j = [CHR 0x22, CHR 0x22]) \<and>
           (rowOf ([brand1] ! i) ! j = JString ''Not Found'' \<longrightarrow>
              cells ! i ! j = quoted ''Not Found''))"
    by blast
  have row: "length (cells ! 0) = 21 \<and>
        (\<forall>j < 21.
           readCell (cells ! 0 ! j) = Some (valueOr (rowOf brand1 ! j)) \<and>
           (\<not> truthy (rowOf brand1 ! j) \<longrightarrow> cells ! 0 ! j = [CHR 0x22, CHR 0x22]) \<and>
           (rowOf brand1 ! j = JString ''Not Found'' \<longrightarrow> cells ! 0 ! j = quoted ''Not Found''))"
    using all by simp
  have c2: "cells ! 0 ! 2 = quoted ''Not Found''" using row r2 by simp
  have c4: "cells ! 0 ! 4 = [CHR 0x22, CHR 0x22]" using row r4 by simp
  have c5: "readCell (cells ! 0 ! 5) = Some (''say '' @ quoted ''hi'')" using row r5 by simp
  show ?thesis using c len row c2 c4 c5 by auto
qed

section \<open>The brand-name input parser: claims\<close>

lemma split_on_no_separator:
  "\<forall>x \<in> set (split_on p s). \<forall>c \<in> set x. \<not> p c"
proof (induction s)
  case Nil
  then show ?case by simp
next
  case (Cons a s)
  show ?case
  proof (cases "p a")
    case True
    then show ?thesis using Cons by simp
  next
    case False
    show ?thesis
    proof (cases "split_on p s")
      case Nil
      then show ?thesis using False by simp
    next
      case (Cons y ys)
      have "\<forall>c \<in> set y. \<not> p c" and "\<forall>x \<in> set ys. \<forall>c \<in> set x. \<not> p c"
        using Cons.IH Cons by simp_all
      then show ?thesis using False Cons by simp
    qed
  qed
qed

lemma set_trim: "set (trim s) \<subseteq> set s"
proof -
  have "set (trim s) \<subseteq> set (dropWhile isWhiteSpace s)"
    unfolding trim_def using set_dropWhileD by fastforce
  then show ?thesis using set_dropWhileD by fastforce
qed

lemma set_stripQuotes: "set (stripQuotes l) \<subseteq> set l"
  by (cases l) (auto simp add: stripQuotes_def Let_def dest: in_set_butlastD split: if_splits)

lemma last_dropWhile: "dropWhile P xs \<noteq> [] \<Longrightarrow> last (dropWhile P xs) = last xs"
  by (induction xs) (auto split: if_splits)

lemma trim_ends:
  assumes "trim s \<noteq> []"
  shows "\<not> isWhiteSpace (hd (trim s)) \<and> \<not> isWhiteSpace (last (trim s))"
proof -
  let ?a = "dropWhile isWhiteSpace s"
  let ?b = "dropWhile isWhiteSpace (rev ?a)"
  have b: "?b \<noteq> []" using assms by (simp add: trim_def)
  have a: "?a \<noteq> []"
  proof
    assume e: "?a = []"
    have "?b = []" unfolding e by simp
    then show False using b by simp
  qed
  have "\<not> isWhiteSpace (hd ?b)" using b hd_dropWhile by blast
  then have l: "\<not> isWhiteSpace (last (trim s))" using b by (simp add: trim_def last_rev)
  have "last ?b = last (rev ?a)" using b by (rule last_dropWhile)
  also have "\<dots> = hd ?a" using a by (simp add: last_rev)
  finally have "hd (trim s) = hd ?a" using b by (simp add: trim_def hd_rev)
  moreover have "\<not> isWhiteSpace (hd ?a)" using a hd_dropWhile by blast
  ultimately show ?thesis using l by simp
qed

lemma parseBrandText_alt:
  "parseBrandText text =
     filter (\<lambda>l. l \<noteq> [])
       (map (\<lambda>l. trim (stripQuotes l))
          (filter (\<lambda>line. \<not> isHeader line)
             (filter (\<lambda>l. l \<noteq> []) (map trim (split_on isSeparator text)))))"
  by (simp add: parseBrandText_def isHeader_def headerTokens_def Let_def cong: filter_cong)

lemma stripQuotes_unquoteEnds: "stripQuotes l = unquoteEnds l"
proof (cases l)
  case Nil
  then show ?thesis by (simp add: stripQuotes_def unquoteEnds_def)
next
  case (Cons c cs)
  then show ?thesis
    by (simp add: stripQuotes_def unquoteEnds_def Let_def butlast_conv_take)
qed

lemma pipeline_namesOf:
  "filter (\<lambda>l. l \<noteq> [])
     (map (\<lambda>l. trim (stripQuotes l))
        (filter (\<lambda>line. \<not> isHeader line)
           (filter (\<lambda>l. l \<noteq> []) (map trim pieces)))) = namesOf pieces"
  by (induction pieces) (simp_all add: stripQuotes_unquoteEnds)

lemma split_on_single: "\<forall>c \<in> set s. \<not> p c \<Longrightarrow> split_on p s = [s]"
  by (induction s) simp_all

lemma quote_not_separator: "isQuote c \<Longrightarrow> \<not> isSeparator c"
  by (auto simp add: isQuote_def isSeparator_def)

lemma quote_not_whitespace: "isQuote c \<Longrightarrow> \<not> isWhiteSpace c"
  by (auto simp add: isQuote_def isWhiteSpace_def)

lemma parseBrandText_in_quotes:
  assumes "isQuote q" "isQuote q'" "\<forall>c \<in> set s. \<not> isSeparator c" "\<not> isHeader (q # s @ [q'])"
  shows "parseBrandText (q # s @ [q']) = (if trim s = [] then [] else [trim s])"
proof -
  have sp: "split_on isSeparator (q # s @ [q']) = [q # s @ [q']]"
    using assms(1-3) quote_not_separator by (intro split_on_single) auto
  have tr: "trim (q # s @ [q']) = q # s @ [q']"
    using assms(1,2) quote_not_whitespace by (intro trim_id) auto
  have un: "unquoteEnds (q # s @ [q']) = s"
    using assms(1,2) by (simp add: unquoteEnds_def)
  show ?thesis
    unfolding parseBrandText_alt pipeline_namesOf sp using assms(4) by (simp add: tr un)
qed

text \<open>
  Claim C8, as stated: the parser drops the header tokens. A piece in quotes with white
  space inside them is tested as a header before the quotes are stripped and the
  result trimmed, so the quoted text \<^verbatim>\<open>Brand\<close> followed by a blank comes back as the
  name \<^verbatim>\<open>Brand\<close>, a header token.
\<close>

theorem parseBrandText_counterexample:
  "parseBrandText (quoted ''Brand '') = [''Brand''] \<and>
   toLowerCase ''Brand'' \<in> set headerTokens"
  by code_simp

text \<open>
  Claim C8, amended. \<open>parseBrandText\<close> splits its input on newlines and commas and reads
  the pieces in order, keeping duplicates: a piece is trimmed; it is dropped if blank,
  or if it is a header token once put in lower case with every quote character removed;
  otherwise one quote character is taken off its start and one off its end, it is
  trimmed again, and dropped if blank. So a name in quotes comes back without them,
  and the specification's example comes back as the two names Nike and Apple. Every
  name returned is not blank, holds no newline and no comma and has no white space at
  either end.
\<close>

theorem parseBrandText_pieces:
  "parseBrandText text = namesOf (split_on isSeparator text) \<and>
   parseBrandText sampleInput = [''Nike'', ''Apple''] \<and>
   parseBrandText sampleQuoted = [''Nike'', ''Apple'', ''Nike'', ''Puma''] \<and>
   (isQuote q \<and> isQuote q' \<and> (\<forall>c \<in> set s. \<not> isSeparator c) \<and> \<not> isHeader (q # s @ [q']) \<longrightarrow>
      parseBrandText (q # s @ [q']) = (if trim s = [] then [] else [trim s])) \<and>
   (\<forall>name \<in> set (parseBrandText text).
      name \<noteq> [] \<and>
      (\<forall>c \<in> set name. \<not> isSeparator c) \<and>
      \<not> isWhiteSpace (hd name) \<and> \<not> isWhiteSpace (last name))"
proof (intro conjI)
  show "parseBrandText text = namesOf (split_on isSeparator text)"
    unfolding parseBrandText_alt by (rule pipeline_namesOf)
next
  show "parseBrandText sampleInput = [''Nike'', ''Apple'']" by code_simp
next
  show "parseBrandText sampleQuoted = [''Nike'', ''Apple'', ''Nike'', ''Puma'']" by code_simp
next
  show "isQuote q \<and> isQuote q' \<and> (\<forall>c \<in> set s. \<not> isSeparator c) \<and> \<not> isHeader (q # s @ [q']) \<longrightarrow>
      parseBrandText (q # s @ [q']) = (if trim s = [] then [] else [trim s])"
    using parseBrandText_in_quotes by blast
next
  show "\<forall>name \<in> set (parseBrandText text).
      name \<noteq> [] \<and>
      (\<forall>c \<in> set name. \<not> isSeparator c) \<and>
      \<not> isWhiteSpace (hd name) \<and> \<not> isWhiteSpace (last name)"
  proof (rule ballI)
    fix name assume n: "name \<in> set (parseBrandText text)"
    then obtain piece where p: "piece \<in> set (split_on isSeparator text)"
        "name = trim (stripQuotes (trim piece))" and ne: "name \<noteq> []"
      unfolding parseBrandText_alt by auto
    have "set name \<subseteq> set piece"
      unfolding p(2) using set_trim set_stripQuotes by blast
    then have sep: "\<forall>c \<in> set name. \<not> isSeparator c"
      using split_on_no_separator p(1) by blast
    have ends: "\<not> isWhiteSpace (hd name) \<and> \<not> isWhiteSpace (last name)"
      using trim_ends [of "stripQuotes (trim piece)"] ne unfolding p(2) by blast
    show "name \<noteq> [] \<and>
      (\<forall>c \<in> set name. \<not> isSeparator c) \<and>
      \<not> isWhiteSpace (hd name) \<and> \<not> isWhiteSpace (last name)"
      using ne sep ends by blast
  qed
qed

theorem parseBrandText_pieces_witness:
  "isQuote (CHR 0x22) \<and> isQuote (CHR 0x27) \<and>
   \<not> isHeader (CHR 0x22 # '' Nike'' @ [CHR 0x27]) \<and>
   parseBrandText (CHR 0x22 # '' Nike'' @ [CHR 0x27]) = [''Nike''] \<and>
   ''Apple'' \<in> set (parseBrandText sampleInput) \<and>
   ''Apple'' \<noteq> [] \<and>
   \<not> isWhiteSpace (hd ''Apple'') \<and> \<not> isWhiteSpace (last ''Apple'')"
proof -
  have q: "isQuote (CHR 0x22)" "isQuote (CHR 0x27)" by (simp_all add: isQuote_def)
  have sep: "\<forall>c \<in> set '' Nike''. \<not> isSeparator c" by (simp add: isSeparator_def)
  have nh: "\<not> isHeader (CHR 0x22 # '' Nike'' @ [CHR 0x27])" by code_simp
  have t: "trim '' Nike'' = ''Nike''" by code_simp
  note all = parseBrandText_pieces [of sampleInput "CHR 0x22" "CHR 0x27" "'' Nike''"]
  note example = all [THEN conjunct2, THEN conjunct1]
  note in_quotes = all [THEN conjunct2, THEN conjunct2, THEN conjunct2, THEN conjunct1]
  note names = all [THEN conjunct2, THEN conjunct2, THEN conjunct2, THEN conjunct2]
  have "parseBrandText (CHR 0x22 # '' Nike'' @ [CHR 0x27]) =
          (if trim '' Nike'' = [] then [] else [trim '' Nike''])"
    using in_quotes q sep nh by blast
  then have one: "parseBrandText (CHR 0x22 # '' Nike'' @ [CHR 0x27]) = [''Nike'']"
    unfolding t by simp
  have m: "''Apple'' \<in> set (parseBrandText sampleInput)"
    unfolding example by simp
  have "''Apple'' \<noteq> [] \<and> \<not> isWhiteSpace (hd ''Apple'') \<and> \<not> isWhiteSpace (last ''Apple'')"
    using names m by blast
  then show ?thesis using q nh one m by blast
qed

end
